theory Spec2Isabelle
  imports Complex_Main "HOL-Library.Sublist"
begin

section \<open>The voice recorder of the mood journal\<close>

text \<open>
  This theory embeds \<^verbatim>\<open>src/components/VoiceRecorder.tsx\<close>: the React state of the
  component, its two interval timers, the pending warning time-outs, and every handler
  that changes them.

  Conventions of the embedding:
  \<^item> The audio recorder, the audio player and \<^verbatim>\<open>AudioModule\<close> are external. What a call
    to them does (return, throw, the status it reports) is an input of the handler, given
    in an environment record; the calls a handler issues are returned as a list, in the
    order the handler issues them.
  \<^item> A handler runs to completion before the next event is taken: an \<^verbatim>\<open>await\<close> is not
    a point where another handler is interleaved.
  \<^item> After a handler, the component renders again and the two effects that depend on
    \<^verbatim>\<open>[isRecording, isPaused]\<close> run (clean-ups first, then bodies) when one of the two
    values changed.
  \<^item> Numbers are mathematical: \<^verbatim>\<open>duration\<close> is an \<open>int\<close>, the audio level a \<open>real\<close>.
  \<^item> Of the console output only the \<^verbatim>\<open>console.warn\<close> and \<^verbatim>\<open>console.error\<close> lines are
    kept (without their emoji prefix and without the values printed after the text).
  \<^item> Not modelled: the animations and styles, the transcription placeholder, the
    \<^verbatim>\<open>visible\<close> prop, and two pieces of code whose only effect on the state is to clear
    \<^verbatim>\<open>isPlaying\<close>, which the playback poll can do at any moment as well: the effect that
    loads a new URI into the player, and the completion check that \<^verbatim>\<open>playRecording\<close>
    starts.
\<close>

subsection \<open>Constants\<close>

definition MAX_DURATION :: int where
  "MAX_DURATION = 300"

definition WARNING_DURATION :: int where
  "WARNING_DURATION = 270"

subsection \<open>Calls to the outside\<close>

datatype 'a outcome = Throws string | Returns 'a

datatype reading = Undefined | Null | Db real

datatype call =
    RequestPermission
  | SetAudioMode bool
  | RecorderGetStatus
  | RecorderStop
  | RecorderPrepare
  | RecorderRecord
  | RecorderPause
  | Sleep nat
  | PlayerPause
  | PlayerSeekTo nat
  | PlayerPlay
  | ShowAlert string string
  | OnSave string int
  | OnClose
  | ConsoleWarn string
  | ConsoleError string

subsection \<open>Component state\<close>

text \<open>
  The eight \<^verbatim>\<open>useState\<close> cells, the two refs, the interval timers that are alive
  (by the handle \<^verbatim>\<open>setInterval\<close> returned), and the deadlines of the pending
  \<^verbatim>\<open>setTimeout(() => setShowWarning(false), 3000)\<close> calls against a clock in
  milliseconds.
\<close>

record state =
  isRecording :: bool
  isPaused :: bool
  duration :: int
  recordedUri :: "string option"
  showWarning :: bool
  hasPermission :: bool
  audioLevel :: real
  isPlaying :: bool
  timerRef :: "nat option"
  meteringRef :: "nat option"
  liveTimers :: "nat list"
  liveMeters :: "nat list"
  nextId :: nat
  timeouts :: "nat list"
  clock :: nat

definition init_state :: state where
  "init_state = \<lparr> isRecording = False, isPaused = False, duration = 0,
     recordedUri = None, showWarning = False, hasPermission = False,
     audioLevel = 0, isPlaying = False, timerRef = None, meteringRef = None,
     liveTimers = [], liveMeters = [], nextId = 0, timeouts = [], clock = 0 \<rparr>"

text \<open>JavaScript truthiness of \<^verbatim>\<open>string | null\<close>: \<^verbatim>\<open>null\<close> and the empty string are falsy.\<close>

fun truthy :: "string option \<Rightarrow> bool" where
  "truthy None = False"
| "truthy (Some u) = (u \<noteq> [])"

text \<open>
  The session state the component shows, read off the render function: the playback
  screen when \<^verbatim>\<open>recordedUri\<close> is truthy; otherwise the recording screen, with the start
  button when \<^verbatim>\<open>!isRecording\<close>, and the pause or resume control by \<^verbatim>\<open>isPaused\<close>.
\<close>

datatype session = Idle | Recording | Paused | Stopped

definition sessionState :: "state \<Rightarrow> session" where
  "sessionState s =
     (if truthy (recordedUri s) then Stopped
      else if \<not> isRecording s then Idle
      else if isPaused s then Paused
      else Recording)"

subsection \<open>Interval timers and the two effects\<close>

definition clearInterval :: "nat \<Rightarrow> state \<Rightarrow> state" where
  "clearInterval i s =
     s\<lparr> liveTimers := removeAll i (liveTimers s), liveMeters := removeAll i (liveMeters s) \<rparr>"

definition meteringCleanup :: "state \<Rightarrow> state" where
  "meteringCleanup s = (case meteringRef s of None \<Rightarrow> s | Some i \<Rightarrow> clearInterval i s)"

definition meteringEffect :: "state \<Rightarrow> state" where
  "meteringEffect s =
     (if isRecording s \<and> \<not> isPaused s
      then s\<lparr> meteringRef := Some (nextId s), liveMeters := nextId s # liveMeters s,
              nextId := Suc (nextId s) \<rparr>
      else (case meteringRef s of
              None \<Rightarrow> s
            | Some i \<Rightarrow> (clearInterval i s)\<lparr> meteringRef := None \<rparr>)\<lparr> audioLevel := 0 \<rparr>)"

definition timerCleanup :: "state \<Rightarrow> state" where
  "timerCleanup s = (case timerRef s of None \<Rightarrow> s | Some i \<Rightarrow> clearInterval i s)"

definition timerEffect :: "state \<Rightarrow> state" where
  "timerEffect s =
     (if isRecording s \<and> \<not> isPaused s
      then s\<lparr> timerRef := Some (nextId s), liveTimers := nextId s # liveTimers s,
              nextId := Suc (nextId s) \<rparr>
      else (case timerRef s of
              None \<Rightarrow> s
            | Some i \<Rightarrow> (clearInterval i s)\<lparr> timerRef := None \<rparr>))"

text \<open>
  The render after a handler: \<open>old\<close> is the state the handler started from, \<open>new\<close> the
  state it left. The effects run only when a dependency changed.
\<close>

definition rerender :: "state \<Rightarrow> state \<Rightarrow> state" where
  "rerender old new =
     (if isRecording new = isRecording old \<and> isPaused new = isPaused old then new
      else timerEffect (meteringEffect (timerCleanup (meteringCleanup new))))"

subsection \<open>Handlers\<close>

record perm_env =
  pmPermission :: "bool outcome"
  pmSetMode :: "unit outcome"

definition requestPermissions :: "state \<Rightarrow> perm_env \<Rightarrow> state \<times> call list" where
  "requestPermissions s env =
     (case pmPermission env of
        Throws m \<Rightarrow> (s, [RequestPermission, ConsoleError ''Permission error''])
      | Returns granted \<Rightarrow>
          (let s1 = s\<lparr> hasPermission := granted \<rparr> in
           if granted then
             (case pmSetMode env of
                Throws m \<Rightarrow>
                  (s1, [RequestPermission, SetAudioMode True, ConsoleError ''Permission error''])
              | Returns u \<Rightarrow> (s1, [RequestPermission, SetAudioMode True]))
           else (s1, [RequestPermission, ConsoleWarn ''Permission not granted initially''])))"

record start_env =
  stPermission :: "bool outcome"
  stSetMode :: "unit outcome"
  stStatusBefore :: "bool outcome"
  stStopExisting :: "unit outcome"
  stPrepare :: "unit outcome"
  stRecord :: "unit outcome"
  stStatusAfter :: "bool outcome"

text \<open>
  The \<^verbatim>\<open>catch\<close> block of \<^verbatim>\<open>startRecording\<close>; \<open>cs\<close> are the calls issued so far and
  \<open>m\<close> is the message of the error caught. The alert is recorded with its title and that
  message, without the fixed advice the source puts around it.
\<close>

definition startFailed :: "state \<Rightarrow> call list \<Rightarrow> string \<Rightarrow> state \<times> call list" where
  "startFailed s cs m =
     (s\<lparr> isRecording := False, isPaused := False, duration := 0 \<rparr>,
      cs @ [ConsoleError ''Recording error'', ConsoleError ''Error details'',
            ShowAlert ''Recording Error'' m])"

text \<open>
  Steps 4 and 5 of \<^verbatim>\<open>startRecording\<close>: prepare, record, wait, verify. The error thrown
  when the device reports not recording is recorded by the first sentence of its message.
\<close>

definition startPrepared :: "state \<Rightarrow> start_env \<Rightarrow> call list \<Rightarrow> state \<times> call list" where
  "startPrepared s env cs =
     (case stPrepare env of
        Throws m \<Rightarrow> startFailed s (cs @ [RecorderPrepare]) m
      | Returns u \<Rightarrow>
          (case stRecord env of
             Throws m \<Rightarrow> startFailed s (cs @ [RecorderPrepare, RecorderRecord]) m
           | Returns u \<Rightarrow>
               (case stStatusAfter env of
                  Throws m \<Rightarrow>
                    startFailed s
                      (cs @ [RecorderPrepare, RecorderRecord, Sleep 200, RecorderGetStatus]) m
                | Returns recording \<Rightarrow>
                    if recording then
                      (s\<lparr> isRecording := True, isPaused := False, duration := 0,
                          recordedUri := None \<rparr>,
                       cs @ [RecorderPrepare, RecorderRecord, Sleep 200, RecorderGetStatus])
                    else
                      startFailed s
                        (cs @ [RecorderPrepare, RecorderRecord, Sleep 200, RecorderGetStatus,
                               ConsoleError ''Recording did not start - isRecording is false'',
                               ConsoleError ''Recorder state''])
                        ''Recording failed to start.'')))"

definition startRecording :: "state \<Rightarrow> start_env \<Rightarrow> state \<times> call list" where
  "startRecording s env =
     (case stPermission env of
        Throws m \<Rightarrow> startFailed s [RequestPermission] m
      | Returns granted \<Rightarrow>
          if \<not> granted then
            (s, [RequestPermission, ConsoleWarn ''Microphone permission denied'',
                 ShowAlert ''Microphone Permission Required''
                   ''This app needs access to your microphone to record voice notes for your journal entries.''])
          else
            (case stSetMode env of
               Throws m \<Rightarrow> startFailed s [RequestPermission, SetAudioMode True] m
             | Returns u \<Rightarrow>
                 (case stStatusBefore env of
                    Throws m \<Rightarrow>
                      startFailed s [RequestPermission, SetAudioMode True, RecorderGetStatus] m
                  | Returns busy \<Rightarrow>
                      if busy then
                        (case stStopExisting env of
                           Throws m \<Rightarrow>
                             startFailed s
                               [RequestPermission, SetAudioMode True, RecorderGetStatus,
                                RecorderStop] m
                         | Returns u \<Rightarrow>
                             startPrepared s env
                               [RequestPermission, SetAudioMode True, RecorderGetStatus,
                                RecorderStop, Sleep 200])
                      else
                        startPrepared s env
                          [RequestPermission, SetAudioMode True, RecorderGetStatus])))"

definition pauseRecording :: "state \<Rightarrow> unit outcome \<Rightarrow> state \<times> call list" where
  "pauseRecording s r =
     (case r of
        Throws m \<Rightarrow> (s, [RecorderPause, ConsoleError ''Pause error''])
      | Returns u \<Rightarrow> (s\<lparr> isPaused := True \<rparr>, [RecorderPause]))"

definition resumeRecording :: "state \<Rightarrow> unit outcome \<Rightarrow> state \<times> call list" where
  "resumeRecording s r =
     (case r of
        Throws m \<Rightarrow> (s, [RecorderRecord, ConsoleError ''Resume error''])
      | Returns u \<Rightarrow> (s\<lparr> isPaused := False \<rparr>, [RecorderRecord]))"

text \<open>
  \<^verbatim>\<open>stopRecording\<close>: the argument is what \<^verbatim>\<open>audioRecorder.stop()\<close> does and, when it
  returns, the value of \<^verbatim>\<open>audioRecorder.uri\<close> read after it.
\<close>

definition stopRecording :: "state \<Rightarrow> string option outcome \<Rightarrow> state \<times> call list" where
  "stopRecording s r =
     (case r of
        Throws m \<Rightarrow> (s, [RecorderStop, ConsoleError ''Stop error''])
      | Returns uri \<Rightarrow>
          (let s1 = s\<lparr> isRecording := False, isPaused := False \<rparr> in
           if truthy uri then (s1\<lparr> recordedUri := uri \<rparr>, [RecorderStop])
           else (s1, [RecorderStop, ConsoleWarn ''No URI returned from recorder''])))"

record tick_env =
  tkRecording :: bool
  tkStop :: "string option outcome"

text \<open>
  The callback of the duration timer. \<open>tkRecording\<close> is \<^verbatim>\<open>status.isRecording\<close>; \<open>tkStop\<close>
  is used when the callback calls \<^verbatim>\<open>stopRecording()\<close>.
\<close>

definition timerTick :: "state \<Rightarrow> tick_env \<Rightarrow> state \<times> call list" where
  "timerTick s env =
     (if \<not> tkRecording env then
        ((case timerRef s of
            None \<Rightarrow> s
          | Some i \<Rightarrow> (clearInterval i s)\<lparr> timerRef := None \<rparr>)\<lparr> isRecording := False \<rparr>,
         [RecorderGetStatus,
          ConsoleWarn ''Timer running but recorder not recording! Stopping timer.''])
      else
        (let prev = duration s;
             newDuration = prev + 1;
             s1 = (if newDuration = WARNING_DURATION
                   then s\<lparr> showWarning := True, timeouts := timeouts s @ [clock s + 3000] \<rparr>
                   else s)
         in if newDuration \<ge> MAX_DURATION then
              (let (s2, cs) = stopRecording s1 (tkStop env) in (s2, RecorderGetStatus # cs))
            else (s1\<lparr> duration := newDuration \<rparr>, [RecorderGetStatus])))"

text \<open>The normalisation of a metering sample, and the callback of the metering interval.\<close>

definition normalize :: "real \<Rightarrow> real" where
  "normalize metering = max 0 (min 1 ((metering + 160) / 160))"

definition meteringTick :: "state \<Rightarrow> reading outcome \<Rightarrow> state \<times> call list" where
  "meteringTick s r =
     (case r of
        Throws m \<Rightarrow> (s, [RecorderGetStatus, ConsoleError ''Metering error''])
      | Returns metering \<Rightarrow>
          (case metering of
             Db db \<Rightarrow> (s\<lparr> audioLevel := normalize db \<rparr>, [RecorderGetStatus])
           | Undefined \<Rightarrow> (s\<lparr> audioLevel := 0 \<rparr>, [RecorderGetStatus])
           | Null \<Rightarrow> (s\<lparr> audioLevel := 0 \<rparr>, [RecorderGetStatus])))"

record play_env =
  plPause :: "unit outcome"
  plSeek :: "unit outcome"
  plSetMode :: "unit outcome"
  plPlay :: "unit outcome"

text \<open>The \<^verbatim>\<open>catch\<close> block of \<^verbatim>\<open>playRecording\<close>.\<close>

definition playFailed :: "state \<Rightarrow> call list \<Rightarrow> state \<times> call list" where
  "playFailed s cs = (s\<lparr> isPlaying := False \<rparr>, cs @ [ConsoleError ''Playback error''])"

text \<open>\<^verbatim>\<open>playRecording\<close> from the seek on; \<open>cs\<close> are the calls issued so far.\<close>

definition playFromStart :: "state \<Rightarrow> play_env \<Rightarrow> call list \<Rightarrow> state \<times> call list" where
  "playFromStart s env cs =
     (case plSeek env of
        Throws m \<Rightarrow> playFailed s (cs @ [PlayerSeekTo 0])
      | Returns u \<Rightarrow>
          (case plSetMode env of
             Throws m \<Rightarrow> playFailed s (cs @ [PlayerSeekTo 0, SetAudioMode False])
           | Returns u \<Rightarrow>
               (case plPlay env of
                  Throws m \<Rightarrow>
                    playFailed s (cs @ [PlayerSeekTo 0, SetAudioMode False, PlayerPlay])
                | Returns u \<Rightarrow>
                    (s\<lparr> isPlaying := True \<rparr>,
                     cs @ [PlayerSeekTo 0, SetAudioMode False, PlayerPlay]))))"

definition playRecording :: "state \<Rightarrow> play_env \<Rightarrow> state \<times> call list" where
  "playRecording s env =
     (if \<not> truthy (recordedUri s) then (s, [ConsoleWarn ''No recording to play''])
      else if isPlaying s then
        (case plPause env of
           Throws m \<Rightarrow> playFailed s [PlayerPause]
         | Returns u \<Rightarrow> playFromStart s env [PlayerPause, Sleep 100])
      else playFromStart s env [])"

definition pausePlayback :: "state \<Rightarrow> unit outcome \<Rightarrow> state \<times> call list" where
  "pausePlayback s r =
     (case r of
        Throws m \<Rightarrow> (s, [PlayerPause, ConsoleError ''Pause playback error''])
      | Returns u \<Rightarrow> (s\<lparr> isPlaying := False \<rparr>, [PlayerPause]))"

text \<open>The play button: \<^verbatim>\<open>onPress={isPlaying ? pausePlayback : playRecording}\<close>.\<close>

definition togglePlay :: "state \<Rightarrow> play_env \<Rightarrow> state \<times> call list" where
  "togglePlay s env = (if isPlaying s then pausePlayback s (plPause env) else playRecording s env)"

record close_env =
  clStop :: "unit outcome"
  clPause :: "unit outcome"

definition cleanupRecording :: "state \<Rightarrow> close_env \<Rightarrow> state \<times> call list" where
  "cleanupRecording s env =
     (let c1 = (if isRecording s then
                  (case clStop env of
                     Throws m \<Rightarrow> [RecorderStop, ConsoleError ''Error stopping recorder'']
                   | Returns u \<Rightarrow> [RecorderStop])
                else []);
          (s2, c2) = (if isPlaying s then
                        (case clPause env of
                           Throws m \<Rightarrow> (s, [PlayerPause, ConsoleError ''Error pausing player''])
                         | Returns u \<Rightarrow> (s\<lparr> isPlaying := False \<rparr>, [PlayerPause]))
                      else (s, []));
          s3 = (case timerRef s2 of
                  None \<Rightarrow> s2
                | Some i \<Rightarrow> (clearInterval i s2)\<lparr> timerRef := None \<rparr>);
          s4 = (case meteringRef s3 of
                  None \<Rightarrow> s3
                | Some i \<Rightarrow> (clearInterval i s3)\<lparr> meteringRef := None \<rparr>)
      in (s4, c1 @ c2))"

definition handleClose :: "state \<Rightarrow> close_env \<Rightarrow> state \<times> call list" where
  "handleClose s env =
     (let (s1, cs) = cleanupRecording s env in
      (s1\<lparr> isRecording := False, isPaused := False, duration := 0, recordedUri := None,
           showWarning := False, audioLevel := 0 \<rparr>,
       cs @ [OnClose]))"

definition handleSave :: "state \<Rightarrow> close_env \<Rightarrow> state \<times> call list" where
  "handleSave s env =
     (case recordedUri s of
        None \<Rightarrow> (s, [])
      | Some uri \<Rightarrow>
          if uri \<noteq> [] \<and> duration s > 0 then
            (let (s1, cs) = handleClose s env in (s1, OnSave uri (duration s) # cs))
          else (s, []))"

text \<open>
  The handler of the "Record Again" button. Its \<^verbatim>\<open>audioPlayer.pause()\<close> is not inside
  a \<^verbatim>\<open>try\<close>: when it throws, the handler ends there.
\<close>

definition recordAgain :: "state \<Rightarrow> unit outcome \<Rightarrow> state \<times> call list" where
  "recordAgain s r =
     (let reset = (\<lambda>t. t\<lparr> isRecording := False, isPaused := False, duration := 0,
                          recordedUri := None, audioLevel := 0 \<rparr>)
      in if isPlaying s then
           (case r of
              Throws m \<Rightarrow> (s, [PlayerPause])
            | Returns u \<Rightarrow> (reset (s\<lparr> isPlaying := False \<rparr>), [PlayerPause]))
         else (reset s, []))"

text \<open>The 100 ms poll of \<^verbatim>\<open>audioPlayer.playing\<close>.\<close>

definition playbackPoll :: "state \<Rightarrow> bool \<Rightarrow> state \<times> call list" where
  "playbackPoll s playing = (if playing \<noteq> isPlaying s then s\<lparr> isPlaying := playing \<rparr> else s, [])"

text \<open>
  Time passing: the clock advances by \<open>dt\<close> milliseconds, and every pending
  \<^verbatim>\<open>setTimeout(() => setShowWarning(false), 3000)\<close> whose deadline is reached fires.
\<close>

definition elapse :: "state \<Rightarrow> nat \<Rightarrow> state \<times> call list" where
  "elapse s dt =
     (let now = clock s + dt;
          due = filter (\<lambda>d. d \<le> now) (timeouts s);
          s1 = s\<lparr> clock := now, timeouts := filter (\<lambda>d. \<not> d \<le> now) (timeouts s) \<rparr>
      in (if due = [] then s1 else s1\<lparr> showWarning := False \<rparr>, []))"

subsection \<open>Events\<close>

text \<open>
  An event is a press of a control, a firing of a timer, or time passing. A control can be
  pressed only on the screen that renders it, and a timer fires only while it is alive.
\<close>

datatype event =
    Mount perm_env
  | PressStart start_env
  | PressPause "unit outcome"
  | PressResume "unit outcome"
  | PressStop "string option outcome"
  | TimerTick tick_env
  | MeteringTick "reading outcome"
  | PressPlay play_env
  | PressSave close_env
  | PressRecordAgain "unit outcome"
  | PressClose close_env
  | PlaybackPoll bool
  | Elapse nat

fun enabled :: "state \<Rightarrow> event \<Rightarrow> bool" where
  "enabled s (Mount env) = True"
| "enabled s (PressStart env) = (\<not> truthy (recordedUri s) \<and> \<not> isRecording s)"
| "enabled s (PressPause r) = (\<not> truthy (recordedUri s) \<and> isRecording s \<and> \<not> isPaused s)"
| "enabled s (PressResume r) = (\<not> truthy (recordedUri s) \<and> isRecording s \<and> isPaused s)"
| "enabled s (PressStop r) = (\<not> truthy (recordedUri s) \<and> isRecording s)"
| "enabled s (TimerTick env) = (liveTimers s \<noteq> [])"
| "enabled s (MeteringTick r) = (liveMeters s \<noteq> [])"
| "enabled s (PressPlay env) = truthy (recordedUri s)"
| "enabled s (PressSave env) = truthy (recordedUri s)"
| "enabled s (PressRecordAgain r) = truthy (recordedUri s)"
| "enabled s (PressClose env) = True"
| "enabled s (PlaybackPoll playing) = True"
| "enabled s (Elapse dt) = True"

fun handler :: "state \<Rightarrow> event \<Rightarrow> state \<times> call list" where
  "handler s (Mount env) = requestPermissions s env"
| "handler s (PressStart env) = startRecording s env"
| "handler s (PressPause r) = pauseRecording s r"
| "handler s (PressResume r) = resumeRecording s r"
| "handler s (PressStop r) = stopRecording s r"
| "handler s (TimerTick env) = timerTick s env"
| "handler s (MeteringTick r) = meteringTick s r"
| "handler s (PressPlay env) = togglePlay s env"
| "handler s (PressSave env) = handleSave s env"
| "handler s (PressRecordAgain r) = recordAgain s r"
| "handler s (PressClose env) = handleClose s env"
| "handler s (PlaybackPoll playing) = playbackPoll s playing"
| "handler s (Elapse dt) = elapse s dt"

definition step :: "state \<Rightarrow> event \<Rightarrow> state \<times> call list" where
  "step s e =
     (if enabled s e then (let (s1, cs) = handler s e in (rerender s s1, cs)) else (s, []))"

fun run :: "state \<Rightarrow> event list \<Rightarrow> state" where
  "run s [] = s"
| "run s (e # es) = run (fst (step s e)) es"

fun calls :: "state \<Rightarrow> event list \<Rightarrow> call list" where
  "calls s [] = []"
| "calls s (e # es) = snd (step s e) @ calls (fst (step s e)) es"

subsection \<open>Invariants of the reachable states: definitions\<close>

text \<open>
  The facts that hold in every state the component can reach: each ref names the one live
  interval of its kind (and both are set exactly while recording and not paused), the
  handles are fresh, the duration stays inside \<open>[0, MAX_DURATION)\<close>, \<^verbatim>\<open>isPaused\<close> is only
  set while recording, a recording in progress has no recorded URI, and the recorded URI
  is never the empty string.
\<close>

definition active :: "state \<Rightarrow> bool" where
  "active s = (isRecording s \<and> \<not> isPaused s)"

definition timers_ok :: "state \<Rightarrow> bool" where
  "timers_ok s =
     (liveTimers s = (case timerRef s of None \<Rightarrow> [] | Some i \<Rightarrow> [i]) \<and>
      liveMeters s = (case meteringRef s of None \<Rightarrow> [] | Some i \<Rightarrow> [i]) \<and>
      (case timerRef s of None \<Rightarrow> True | Some i \<Rightarrow> i < nextId s) \<and>
      (case meteringRef s of None \<Rightarrow> True | Some i \<Rightarrow> i < nextId s) \<and>
      (case timerRef s of None \<Rightarrow> True | Some i \<Rightarrow> meteringRef s \<noteq> Some i))"

definition synced :: "state \<Rightarrow> bool" where
  "synced s = ((timerRef s \<noteq> None) = active s \<and> (meteringRef s \<noteq> None) = active s)"

definition flags_ok :: "state \<Rightarrow> bool" where
  "flags_ok s =
     (0 \<le> duration s \<and> duration s < MAX_DURATION \<and>
      (isRecording s \<or> \<not> isPaused s) \<and>
      (\<not> isRecording s \<or> \<not> truthy (recordedUri s)) \<and>
      recordedUri s \<noteq> Some [])"

definition invar :: "state \<Rightarrow> bool" where
  "invar s = (timers_ok s \<and> synced s \<and> flags_ok s)"

text \<open>What a handler must leave behind for the render after it to restore \<open>invar\<close>.\<close>

definition handled :: "state \<Rightarrow> state \<Rightarrow> bool" where
  "handled s s1 =
     (timers_ok s1 \<and> flags_ok s1 \<and>
      (synced s1 \<or> isRecording s1 \<noteq> isRecording s \<or> isPaused s1 \<noteq> isPaused s))"

subsection \<open>Notions used to state the properties\<close>

text \<open>
  The level the specification asks for, in its own words: clamp \<open>(db + 160) / 160\<close> to
  \<open>[0, 1]\<close>, and take a missing reading as level 0.
\<close>

definition spec_clamp :: "real \<Rightarrow> real \<Rightarrow> real \<Rightarrow> real" where
  "spec_clamp v lo hi = (if v < lo then lo else if hi < v then hi else v)"

definition spec_level :: "reading \<Rightarrow> real" where
  "spec_level r = (case r of Db db \<Rightarrow> spec_clamp ((db + 160) / 160) 0 1 | Undefined \<Rightarrow> 0 | Null \<Rightarrow> 0)"


text \<open>The calls issued before the first occurrence of \<open>c\<close>.\<close>

definition callsBefore :: "call \<Rightarrow> call list \<Rightarrow> call list" where
  "callsBefore c cs = takeWhile (\<lambda>x. x \<noteq> c) cs"

text \<open>The events whose handlers contain \<^verbatim>\<open>setDuration(0)\<close>.\<close>

fun resets :: "event \<Rightarrow> bool" where
  "resets (PressStart env) = True"
| "resets (PressSave env) = True"
| "resets (PressRecordAgain r) = True"
| "resets (PressClose env) = True"
| "resets e = False"

fun is_tick :: "event \<Rightarrow> bool" where
  "is_tick (TimerTick env) = True"
| "is_tick e = False"

fun is_save :: "event \<Rightarrow> bool" where
  "is_save (PressSave env) = True"
| "is_save e = False"



subsection \<open>Sample device behaviour\<close>

text \<open>A device that does what it is asked, and a device that has stopped recording.\<close>

definition okStart :: start_env where
  "okStart = \<lparr> stPermission = Returns True, stSetMode = Returns (),
     stStatusBefore = Returns False, stStopExisting = Returns (), stPrepare = Returns (),
     stRecord = Returns (), stStatusAfter = Returns True \<rparr>"

definition deadStart :: start_env where
  "deadStart = okStart\<lparr> stStatusAfter := Returns False \<rparr>"

definition busyStart :: start_env where
  "busyStart = okStart\<lparr> stStatusBefore := Returns True \<rparr>"

definition okTick :: tick_env where
  "okTick = \<lparr> tkRecording = True, tkStop = Returns (Some ''file:///voice.m4a'') \<rparr>"

definition lostTick :: tick_env where
  "lostTick = okTick\<lparr> tkRecording := False \<rparr>"

definition okClose :: close_env where
  "okClose = \<lparr> clStop = Returns (), clPause = Returns () \<rparr>"

definition okPlay :: play_env where
  "okPlay = \<lparr> plPause = Returns (), plSeek = Returns (), plSetMode = Returns (),
     plPlay = Returns () \<rparr>"

text \<open>A recording that is started and left running for \<open>n\<close> ticks of the duration timer.\<close>

definition ticked :: "nat \<Rightarrow> event list" where
  "ticked n = PressStart okStart # replicate n (TimerTick okTick)"


section \<open>Properties\<close>

subsection \<open>Invariants of the reachable states\<close>

lemma rerender_timers:
  assumes "timers_ok new"
    and "isRecording new = isRecording old \<and> isPaused new = isPaused old \<Longrightarrow> synced new"
  shows "timers_ok (rerender old new) \<and> synced (rerender old new)"
  using assms
  by (auto simp: rerender_def timers_ok_def synced_def active_def timerEffect_def
      meteringEffect_def timerCleanup_def meteringCleanup_def clearInterval_def
      split: option.splits)

lemma rerender_fields [simp]:
  "isRecording (rerender old new) = isRecording new"
  "isPaused (rerender old new) = isPaused new"
  "duration (rerender old new) = duration new"
  "recordedUri (rerender old new) = recordedUri new"
  "showWarning (rerender old new) = showWarning new"
  "isPlaying (rerender old new) = isPlaying new"
  "hasPermission (rerender old new) = hasPermission new"
  "timeouts (rerender old new) = timeouts new"
  "clock (rerender old new) = clock new"
  by (auto simp: rerender_def timerEffect_def
      meteringEffect_def timerCleanup_def meteringCleanup_def clearInterval_def
      split: option.splits)

lemma rerender_flags: "flags_ok (rerender old new) = flags_ok new"
  by (simp add: flags_ok_def)

lemmas inv_defs = invar_def handled_def timers_ok_def synced_def flags_ok_def active_def

lemma handled_mount: "invar s \<Longrightarrow> handled s (fst (requestPermissions s env))"
  by (auto simp: inv_defs requestPermissions_def Let_def split: outcome.splits)

lemma handled_startFailed:
  "invar s \<Longrightarrow> \<not> isRecording s \<Longrightarrow> handled s (fst (startFailed s cs m))"
  by (auto simp: inv_defs startFailed_def MAX_DURATION_def)

lemma handled_startPrepared:
  "invar s \<Longrightarrow> \<not> isRecording s \<Longrightarrow> handled s (fst (startPrepared s env cs))"
  using handled_startFailed [of s]
  by (auto simp: startPrepared_def inv_defs MAX_DURATION_def split: outcome.splits)

lemma handled_start:
  "invar s \<Longrightarrow> \<not> isRecording s \<Longrightarrow> handled s (fst (startRecording s env))"
  using handled_startFailed [of s] handled_startPrepared [of s]
  by (auto simp: startRecording_def split: outcome.splits) (auto simp: inv_defs)

lemma handled_pause: "invar s \<Longrightarrow> isRecording s \<Longrightarrow> handled s (fst (pauseRecording s r))"
  by (auto simp: inv_defs pauseRecording_def split: outcome.splits)

lemma handled_resume:
  "invar s \<Longrightarrow> isRecording s \<Longrightarrow> handled s (fst (resumeRecording s r))"
  by (auto simp: inv_defs resumeRecording_def split: outcome.splits)

lemma handled_stop: "invar s \<Longrightarrow> handled s (fst (stopRecording s r))"
  by (auto simp: inv_defs stopRecording_def Let_def split: outcome.splits)

lemma handled_tick: "invar s \<Longrightarrow> liveTimers s \<noteq> [] \<Longrightarrow> handled s (fst (timerTick s env))"
  by (auto simp: inv_defs timerTick_def stopRecording_def clearInterval_def Let_def
      MAX_DURATION_def WARNING_DURATION_def split: outcome.splits option.splits)

lemma handled_metering: "invar s \<Longrightarrow> handled s (fst (meteringTick s r))"
  by (auto simp: inv_defs meteringTick_def split: outcome.splits reading.splits)

lemma togglePlay_same [simp]:
  "isRecording (fst (togglePlay s env)) = isRecording s"
  "isPaused (fst (togglePlay s env)) = isPaused s"
  "duration (fst (togglePlay s env)) = duration s"
  "recordedUri (fst (togglePlay s env)) = recordedUri s"
  "showWarning (fst (togglePlay s env)) = showWarning s"
  "timerRef (fst (togglePlay s env)) = timerRef s"
  "meteringRef (fst (togglePlay s env)) = meteringRef s"
  "liveTimers (fst (togglePlay s env)) = liveTimers s"
  "liveMeters (fst (togglePlay s env)) = liveMeters s"
  "nextId (fst (togglePlay s env)) = nextId s"
  "timeouts (fst (togglePlay s env)) = timeouts s"
  "clock (fst (togglePlay s env)) = clock s"
  by (simp_all add: togglePlay_def pausePlayback_def playRecording_def
      playFromStart_def playFailed_def split: outcome.splits)

lemma handled_play: "invar s \<Longrightarrow> handled s (fst (togglePlay s env))"
  by (simp add: inv_defs cong: option.case_cong)

lemma cleanup_refs [simp]:
  "timerRef (fst (cleanupRecording s env)) = None"
  "meteringRef (fst (cleanupRecording s env)) = None"
  by (simp_all add: cleanupRecording_def clearInterval_def Let_def
      split: outcome.splits option.splits prod.splits)

lemma cleanup_same [simp]:
  "isRecording (fst (cleanupRecording s env)) = isRecording s"
  "isPaused (fst (cleanupRecording s env)) = isPaused s"
  "duration (fst (cleanupRecording s env)) = duration s"
  "recordedUri (fst (cleanupRecording s env)) = recordedUri s"
  "showWarning (fst (cleanupRecording s env)) = showWarning s"
  "hasPermission (fst (cleanupRecording s env)) = hasPermission s"
  "nextId (fst (cleanupRecording s env)) = nextId s"
  "timeouts (fst (cleanupRecording s env)) = timeouts s"
  "clock (fst (cleanupRecording s env)) = clock s"
  by (simp_all add: cleanupRecording_def clearInterval_def Let_def
      split: outcome.splits option.splits prod.splits)

lemma cleanup_live:
  "timers_ok s \<Longrightarrow> liveTimers (fst (cleanupRecording s env)) = [] \<and>
     liveMeters (fst (cleanupRecording s env)) = []"
  by (simp add: cleanupRecording_def clearInterval_def Let_def timers_ok_def
      split: outcome.splits option.splits prod.splits)

lemma handleClose_fst:
  "fst (handleClose s env) =
     (fst (cleanupRecording s env))\<lparr> isRecording := False, isPaused := False, duration := 0,
        recordedUri := None, showWarning := False, audioLevel := 0 \<rparr>"
  by (simp add: handleClose_def split: prod.splits)

lemma handled_close: "invar s \<Longrightarrow> handled s (fst (handleClose s env))"
  using cleanup_live [of s env]
  by (simp add: handleClose_fst inv_defs MAX_DURATION_def)

lemma handled_save: "invar s \<Longrightarrow> handled s (fst (handleSave s env))"
  using handled_close [of s env]
  by (auto simp: handleSave_def split: option.splits prod.splits) (auto simp: inv_defs)

lemma handled_again: "invar s \<Longrightarrow> handled s (fst (recordAgain s r))"
  by (auto simp: inv_defs recordAgain_def Let_def MAX_DURATION_def split: outcome.splits)

lemma handled_poll: "invar s \<Longrightarrow> handled s (fst (playbackPoll s playing))"
  by (auto simp: inv_defs playbackPoll_def)

lemma handled_elapse: "invar s \<Longrightarrow> handled s (fst (elapse s dt))"
  by (auto simp: inv_defs elapse_def Let_def)

lemma handled_handler: "invar s \<Longrightarrow> enabled s e \<Longrightarrow> handled s (fst (handler s e))"
  by (cases e)
    (simp_all add: handled_mount handled_start handled_pause handled_resume handled_stop
      handled_tick handled_metering handled_play handled_close handled_save handled_again
      handled_poll handled_elapse)

lemma invar_rerender: "handled s s1 \<Longrightarrow> invar (rerender s s1)"
  using rerender_timers [of s1 s] rerender_flags [of s s1]
  by (auto simp: handled_def invar_def)

lemma invar_step: "invar s \<Longrightarrow> invar (fst (step s e))"
  using handled_handler [of s e] invar_rerender [of s "fst (handler s e)"]
  by (auto simp: step_def split: prod.splits)

lemma invar_init: "invar init_state"
  by (simp add: inv_defs init_state_def MAX_DURATION_def)

lemma invar_run: "invar s \<Longrightarrow> invar (run s es)"
  by (induction es arbitrary: s) (simp_all add: invar_step)


subsection \<open>Runs, and a recording left running\<close>

lemma step_tick_plain:
  assumes "liveTimers s \<noteq> []" "tkRecording env" "duration s + 1 < MAX_DURATION"
  shows "step s (TimerTick env) =
     ((if duration s + 1 = WARNING_DURATION
       then s\<lparr> showWarning := True, timeouts := timeouts s @ [clock s + 3000] \<rparr>
       else s)\<lparr> duration := duration s + 1 \<rparr>, [RecorderGetStatus])"
  using assms by (simp add: step_def timerTick_def Let_def rerender_def)

lemma run_ticks:
  assumes "liveTimers s \<noteq> []" "tkRecording env" "duration s + int n < MAX_DURATION"
  shows "duration (run s (replicate n (TimerTick env))) = duration s + int n
    \<and> isRecording (run s (replicate n (TimerTick env))) = isRecording s
    \<and> isPaused (run s (replicate n (TimerTick env))) = isPaused s
    \<and> recordedUri (run s (replicate n (TimerTick env))) = recordedUri s
    \<and> liveTimers (run s (replicate n (TimerTick env))) = liveTimers s
    \<and> liveMeters (run s (replicate n (TimerTick env))) = liveMeters s
    \<and> timerRef (run s (replicate n (TimerTick env))) = timerRef s
    \<and> meteringRef (run s (replicate n (TimerTick env))) = meteringRef s
    \<and> isPlaying (run s (replicate n (TimerTick env))) = isPlaying s
    \<and> clock (run s (replicate n (TimerTick env))) = clock s"
  using assms
proof (induction n arbitrary: s)
  case 0
  then show ?case by simp
next
  case (Suc n)
  let ?s1 = "fst (step s (TimerTick env))"
  have lt: "duration s + 1 < MAX_DURATION" using Suc.prems by simp
  have s1: "?s1 = (if duration s + 1 = WARNING_DURATION
       then s\<lparr> showWarning := True, timeouts := timeouts s @ [clock s + 3000] \<rparr>
       else s)\<lparr> duration := duration s + 1 \<rparr>"
    using step_tick_plain [OF Suc.prems(1,2) lt] by simp
  have "liveTimers ?s1 \<noteq> []" "duration ?s1 + int n < MAX_DURATION"
    using Suc.prems by (simp_all add: s1)
  from Suc.IH [OF this(1) Suc.prems(2) this(2)]
  show ?case by (simp add: s1)
qed

lemma started:
  "fst (step init_state (PressStart okStart)) =
     init_state\<lparr> isRecording := True, timerRef := Some 1, meteringRef := Some 0,
       liveTimers := [1], liveMeters := [0], nextId := 2 \<rparr>"
  by (simp add: step_def startRecording_def startPrepared_def okStart_def init_state_def
      rerender_def timerEffect_def meteringEffect_def timerCleanup_def meteringCleanup_def
      numeral_2_eq_2)

lemma run_append: "run s (es @ es') = run (run s es) es'"
  by (induction es arbitrary: s) simp_all

lemma calls_append: "calls s (es @ es') = calls s es @ calls (run s es) es'"
  by (induction es arbitrary: s) simp_all

lemma ticked_Suc: "ticked (Suc n) = ticked n @ [TimerTick okTick]"
  by (simp add: ticked_def replicate_append_same)

lemma run_ticked:
  assumes "int n < MAX_DURATION"
  shows "duration (run init_state (ticked n)) = int n
    \<and> isRecording (run init_state (ticked n))
    \<and> \<not> isPaused (run init_state (ticked n))
    \<and> recordedUri (run init_state (ticked n)) = None
    \<and> liveTimers (run init_state (ticked n)) = [1]
    \<and> liveMeters (run init_state (ticked n)) = [0]
    \<and> timerRef (run init_state (ticked n)) = Some 1
    \<and> meteringRef (run init_state (ticked n)) = Some 0
    \<and> \<not> isPlaying (run init_state (ticked n))
    \<and> clock (run init_state (ticked n)) = 0"
proof -
  let ?s = "fst (step init_state (PressStart okStart))"
  have "liveTimers ?s \<noteq> []" "tkRecording okTick" "duration ?s + int n < MAX_DURATION"
    using assms unfolding started by (simp_all add: init_state_def okTick_def)
  from run_ticks [OF this] show ?thesis
    unfolding ticked_def run.simps started by (simp add: init_state_def)
qed

lemma step_tick_stop:
  assumes "liveTimers s \<noteq> []" "tkRecording env" "MAX_DURATION \<le> duration s + 1"
  shows "duration (fst (step s (TimerTick env))) = duration s"
    and "RecorderStop \<in> set (snd (step s (TimerTick env)))"
    and "tkStop env = Returns uri \<Longrightarrow> truthy uri \<Longrightarrow>
           recordedUri (fst (step s (TimerTick env))) = uri
           \<and> \<not> isRecording (fst (step s (TimerTick env)))
           \<and> \<not> isPaused (fst (step s (TimerTick env)))
           \<and> snd (step s (TimerTick env)) = [RecorderGetStatus, RecorderStop]"
  using assms
  by (auto simp: step_def timerTick_def stopRecording_def Let_def MAX_DURATION_def
      WARNING_DURATION_def split: outcome.splits prod.splits)

subsection \<open>What a save passes on\<close>

lemma save_calls:
  assumes "recordedUri s = Some uri" "uri \<noteq> []" "0 < duration s"
  shows "OnSave uri (duration s) \<in> set (snd (step s (PressSave env)))"
  using assms by (simp add: step_def handleSave_def split: prod.splits)

lemma onSave_handler:
  assumes "OnSave uri d \<in> set (snd (handler s e))"
  shows "is_save e \<and> recordedUri s = Some uri \<and> uri \<noteq> [] \<and> d = duration s \<and> 0 < d"
proof (cases e)
  case (PressStart env)
  then show ?thesis using assms
    by (auto simp: startRecording_def startPrepared_def startFailed_def
        split: outcome.splits if_splits)
next
  case (PressSave env)
  then show ?thesis using assms
    by (auto simp: handleSave_def handleClose_def cleanupRecording_def Let_def
        split: option.splits outcome.splits if_splits prod.splits)
next
  case (PressClose env)
  then show ?thesis using assms
    by (auto simp: handleClose_def cleanupRecording_def Let_def
        split: option.splits outcome.splits if_splits prod.splits)
next
  case (TimerTick env)
  then show ?thesis using assms
    by (auto simp: timerTick_def stopRecording_def Let_def
        split: option.splits outcome.splits if_splits prod.splits)
next
  case (PressPlay env)
  then show ?thesis using assms
    by (auto simp: togglePlay_def pausePlayback_def playRecording_def
      playFromStart_def playFailed_def split: outcome.splits if_splits)
qed (use assms in \<open>auto simp: requestPermissions_def pauseRecording_def resumeRecording_def
      stopRecording_def meteringTick_def recordAgain_def playbackPoll_def elapse_def Let_def
      split: outcome.splits reading.splits if_splits\<close>)

lemma onSave_step:
  assumes "OnSave uri d \<in> set (snd (step s e))"
  shows "is_save e \<and> recordedUri s = Some uri \<and> uri \<noteq> [] \<and> d = duration s \<and> 0 < d"
  using assms onSave_handler [of uri d s e]
  by (auto simp: step_def split: if_splits prod.splits)

lemma onSave_calls:
  assumes "OnSave uri d \<in> set (calls s es)" "invar s"
  shows "uri \<noteq> [] \<and> 0 < d \<and> d < MAX_DURATION"
  using assms
proof (induction es arbitrary: s)
  case Nil
  then show ?case by simp
next
  case (Cons e es)
  show ?case
  proof (cases "OnSave uri d \<in> set (snd (step s e))")
    case True
    with onSave_step [of uri d s e] Cons.prems(2) show ?thesis
      by (simp add: invar_def flags_ok_def)
  next
    case False
    with Cons.prems have "OnSave uri d \<in> set (calls (fst (step s e)) es)" by simp
    from Cons.IH [OF this invar_step [OF Cons.prems(2)]] show ?thesis .
  qed
qed

subsection \<open>Consequences of the invariants\<close>

lemma inactive_timers:
  assumes "invar s" "\<not> isRecording s \<or> isPaused s"
  shows "liveTimers s = [] \<and> liveMeters s = [] \<and> timerRef s = None \<and> meteringRef s = None"
  using assms by (auto simp: inv_defs split: option.splits)

lemma tick_enabled_recording:
  assumes "invar s" "liveTimers s \<noteq> []"
  shows "sessionState s = Recording"
  using assms by (auto simp: inv_defs sessionState_def split: option.splits)

lemma uri_None:
  assumes "invar s" "\<not> truthy (recordedUri s)"
  shows "recordedUri s = None"
  using assms by (cases "recordedUri s") (auto simp: inv_defs)

subsection \<open>How the duration changes\<close>

lemma duration_handler:
  "duration (fst (handler s e)) = duration s
   \<or> (is_tick e \<and> duration (fst (handler s e)) = duration s + 1)
   \<or> (resets e \<and> duration (fst (handler s e)) = 0)"
proof (cases e)
  case (PressStart env)
  then show ?thesis
    by (simp add: startRecording_def startPrepared_def startFailed_def split: outcome.splits)
next
  case (TimerTick env)
  then show ?thesis
    by (simp add: timerTick_def stopRecording_def clearInterval_def Let_def
        split: outcome.splits option.splits)
next
  case (PressSave env)
  then show ?thesis
    by (simp add: handleSave_def handleClose_fst case_prod_beta split: option.splits)
next
  case (PressClose env)
  then show ?thesis by (simp add: handleClose_fst)
qed (simp_all add: requestPermissions_def pauseRecording_def resumeRecording_def
      stopRecording_def meteringTick_def recordAgain_def playbackPoll_def elapse_def Let_def
      split: outcome.splits reading.splits)

lemma duration_step:
  assumes "invar s"
  shows "duration (fst (step s e)) = duration s
   \<or> (sessionState s = Recording \<and> is_tick e \<and> duration (fst (step s e)) = duration s + 1)
   \<or> (resets e \<and> duration (fst (step s e)) = 0)"
proof (cases "enabled s e")
  case False
  then show ?thesis by (simp add: step_def)
next
  case True
  have rec: "sessionState s = Recording" if "is_tick e"
    using that True tick_enabled_recording [OF assms] by (cases e) simp_all
  have "duration (fst (step s e)) = duration (fst (handler s e))"
    using True by (simp add: step_def split: prod.splits)
  with duration_handler [of s e] rec show ?thesis by auto
qed

lemmas exec_defs = step_def rerender_def timerEffect_def meteringEffect_def timerCleanup_def
  meteringCleanup_def clearInterval_def startRecording_def startPrepared_def startFailed_def
  stopRecording_def timerTick_def recordAgain_def handleClose_def cleanupRecording_def
  handleSave_def togglePlay_def playRecording_def playFromStart_def pausePlayback_def
  sessionState_def init_state_def okStart_def okTick_def lostTick_def okClose_def okPlay_def
  deadStart_def busyStart_def MAX_DURATION_def WARNING_DURATION_def Let_def

lemma ticked_2:
  "run init_state (ticked 2) =
     init_state\<lparr> isRecording := True, duration := 2, timerRef := Some 1, meteringRef := Some 0,
       liveTimers := [1], liveMeters := [0], nextId := 2 \<rparr>"
  by (simp add: ticked_def numeral_2_eq_2 exec_defs)

lemma step_tick_stopped:
  assumes "invar s" "liveTimers s \<noteq> []" "tkRecording env" "MAX_DURATION \<le> duration s + 1"
    "tkStop env = Returns uri" "truthy uri"
  shows "sessionState (fst (step s (TimerTick env))) = Stopped"
    and "liveTimers (fst (step s (TimerTick env))) = []"
    and "liveMeters (fst (step s (TimerTick env))) = []"
    and "step (fst (step s (TimerTick env))) (TimerTick env') = (fst (step s (TimerTick env)), [])"
proof -
  let ?s1 = "fst (step s (TimerTick env))"
  have f: "recordedUri ?s1 = uri" "\<not> isRecording ?s1"
    using step_tick_stop(3) [OF assms(2,3,4,5,6)] by simp_all
  show "sessionState ?s1 = Stopped" using f assms(6) by (simp add: sessionState_def)
  have "invar ?s1" by (rule invar_step [OF assms(1)])
  from inactive_timers [OF this] f
  show l: "liveTimers ?s1 = []" and "liveMeters ?s1 = []" by simp_all
  show "step ?s1 (TimerTick env') = (?s1, [])" using l by (simp add: step_def)
qed

lemma ticked_299:
  "invar (run init_state (ticked 299))"
  "liveTimers (run init_state (ticked 299)) = [1]"
  "duration (run init_state (ticked 299)) = 299"
  "run init_state (ticked 300) = fst (step (run init_state (ticked 299)) (TimerTick okTick))"
  "calls init_state (ticked 300) =
     calls init_state (ticked 299) @ snd (step (run init_state (ticked 299)) (TimerTick okTick))"
  using run_ticked [of 299] ticked_Suc [of 299]
  by (simp_all add: invar_run invar_init MAX_DURATION_def run_append calls_append)

lemma okTick_simps [simp]:
  "tkRecording okTick" "tkStop okTick = Returns (Some ''file:///voice.m4a'')"
  "\<not> tkRecording lostTick"
  by (simp_all add: okTick_def lostTick_def)

lemma calls_ticks:
  assumes "liveTimers s \<noteq> []" "tkRecording env" "duration s + int n < MAX_DURATION"
  shows "calls s (replicate n (TimerTick env)) = replicate n RecorderGetStatus"
  using assms
proof (induction n arbitrary: s)
  case 0
  then show ?case by simp
next
  case (Suc n)
  let ?s1 = "fst (step s (TimerTick env))"
  have lt: "duration s + 1 < MAX_DURATION" using Suc.prems by simp
  note st = step_tick_plain [OF Suc.prems(1,2) lt]
  have "liveTimers ?s1 \<noteq> []" "duration ?s1 + int n < MAX_DURATION"
    using Suc.prems by (simp_all add: st)
  from Suc.IH [OF this(1) Suc.prems(2) this(2)]
  show ?case by (simp add: st)
qed

lemma no_stop_before_cap: "RecorderStop \<notin> set (calls init_state (ticked 299))"
proof -
  let ?s = "fst (step init_state (PressStart okStart))"
  have "liveTimers ?s \<noteq> []" "tkRecording okTick" "duration ?s + int 299 < MAX_DURATION"
    unfolding started by (simp_all add: init_state_def MAX_DURATION_def)
  from calls_ticks [OF this]
  have "calls init_state (ticked 299)
      = snd (step init_state (PressStart okStart)) @ replicate 299 RecorderGetStatus"
    by (simp add: ticked_def)
  moreover have "RecorderStop \<notin> set (snd (step init_state (PressStart okStart)))"
    by (simp add: exec_defs)
  ultimately show ?thesis by simp
qed

lemma full_session_saved:
  "OnSave ''file:///voice.m4a'' 299 \<in> set (calls init_state (ticked 300 @ [PressSave okClose]))"
proof -
  let ?s = "run init_state (ticked 299)"
  have t: "tkStop okTick = Returns (Some ''file:///voice.m4a'')" "truthy (Some ''file:///voice.m4a'')"
    by simp_all
  have "recordedUri (run init_state (ticked 300)) = Some ''file:///voice.m4a''"
    "duration (run init_state (ticked 300)) = 299"
    using step_tick_stop(1) [of ?s okTick] step_tick_stop(3) [of ?s okTick, OF _ _ _ t]
      ticked_299(2,3)
    by (simp_all add: ticked_299(4) MAX_DURATION_def)
  then have "OnSave ''file:///voice.m4a'' 299
      \<in> set (snd (step (run init_state (ticked 300)) (PressSave okClose)))"
    using save_calls [of "run init_state (ticked 300)" "''file:///voice.m4a''" okClose] by simp
  then show ?thesis by (simp add: calls_append)
qed

subsection \<open>The device not recording\<close>

lemma start_mismatch:
  assumes "RecorderRecord \<in> set (snd (startRecording s env))"
    "stRecord env = Returns ()" "stStatusAfter env = Returns False"
  shows "ShowAlert ''Recording Error'' ''Recording failed to start.''
           \<in> set (snd (startRecording s env))"
    and "\<not> isRecording (fst (startRecording s env))"
    and "\<not> isPaused (fst (startRecording s env))"
    and "duration (fst (startRecording s env)) = 0"
    and "recordedUri (fst (startRecording s env)) = recordedUri s"
  using assms
  by (auto simp: startRecording_def startPrepared_def startFailed_def
      split: outcome.splits if_splits)

lemma step_start_mismatch:
  assumes "invar s" "enabled s (PressStart env)"
    "RecorderRecord \<in> set (snd (step s (PressStart env)))"
    "stRecord env = Returns ()" "stStatusAfter env = Returns False"
  shows "ShowAlert ''Recording Error'' ''Recording failed to start.''
           \<in> set (snd (step s (PressStart env)))
    \<and> sessionState (fst (step s (PressStart env))) = Idle
    \<and> duration (fst (step s (PressStart env))) = 0
    \<and> liveTimers (fst (step s (PressStart env))) = []
    \<and> liveMeters (fst (step s (PressStart env))) = []"
proof -
  let ?h = "startRecording s env"
  have st: "step s (PressStart env) = (rerender s (fst ?h), snd ?h)"
    using assms(2) by (simp add: step_def split: prod.splits)
  have r: "RecorderRecord \<in> set (snd ?h)" using assms(3) st by simp
  note m = start_mismatch [OF r assms(4,5)]
  have "invar (fst (step s (PressStart env)))" by (rule invar_step [OF assms(1)])
  moreover have "\<not> isRecording (fst (step s (PressStart env)))" using m(2) st by simp
  ultimately have "liveTimers (fst (step s (PressStart env))) = []
      \<and> liveMeters (fst (step s (PressStart env))) = []"
    using inactive_timers by blast
  then show ?thesis using m assms(2) st by (simp add: sessionState_def)
qed

lemma step_tick_lost:
  assumes "invar s" "enabled s (TimerTick env)" "\<not> tkRecording env"
  shows "snd (step s (TimerTick env)) =
           [RecorderGetStatus,
            ConsoleWarn ''Timer running but recorder not recording! Stopping timer.'']
    \<and> sessionState (fst (step s (TimerTick env))) = Idle
    \<and> duration (fst (step s (TimerTick env))) = duration s
    \<and> liveTimers (fst (step s (TimerTick env))) = []
    \<and> liveMeters (fst (step s (TimerTick env))) = []"
proof -
  let ?h = "timerTick s env"
  have st: "step s (TimerTick env) = (rerender s (fst ?h), snd ?h)"
    using assms(2) by (simp add: step_def split: prod.splits)
  have h: "snd ?h = [RecorderGetStatus,
            ConsoleWarn ''Timer running but recorder not recording! Stopping timer.'']"
      "\<not> isRecording (fst ?h)" "duration (fst ?h) = duration s"
      "recordedUri (fst ?h) = recordedUri s"
    using assms(3) by (simp_all add: timerTick_def clearInterval_def split: option.splits)
  have "sessionState s = Recording" using tick_enabled_recording assms(1,2) by simp
  then have u: "\<not> truthy (recordedUri s)" by (simp add: sessionState_def split: if_splits)
  have "invar (fst (step s (TimerTick env)))" by (rule invar_step [OF assms(1)])
  moreover have "\<not> isRecording (fst (step s (TimerTick env)))" using h(2) st by simp
  ultimately have "liveTimers (fst (step s (TimerTick env))) = []
      \<and> liveMeters (fst (step s (TimerTick env))) = []"
    using inactive_timers by blast
  then show ?thesis using h u st by (simp add: sessionState_def)
qed

subsection \<open>Closing the recorder\<close>


lemma cleanup_audioLevel [simp]:
  "audioLevel (fst (cleanupRecording s env)) = audioLevel s"
  by (simp add: cleanupRecording_def clearInterval_def Let_def
      split: outcome.splits option.splits prod.splits)






subsection \<open>Stopping without a URI\<close>

lemma stopped_2:
  "run init_state (ticked 2 @ [PressStop (Returns (Some ''file:///voice.m4a''))]) =
     init_state\<lparr> duration := 2, recordedUri := Some ''file:///voice.m4a'', nextId := 2 \<rparr>"
  unfolding run_append ticked_2 by (simp add: exec_defs)

lemma step_stop_no_uri:
  assumes "invar s" "enabled s (PressStop (Returns uri))" "\<not> truthy uri"
  shows "snd (step s (PressStop (Returns uri))) =
           [RecorderStop, ConsoleWarn ''No URI returned from recorder'']"
    and "\<not> isRecording (fst (step s (PressStop (Returns uri))))"
    and "\<not> isPaused (fst (step s (PressStop (Returns uri))))"
    and "recordedUri (fst (step s (PressStop (Returns uri)))) = None"
    and "duration (fst (step s (PressStop (Returns uri)))) = duration s"
    and "sessionState (fst (step s (PressStop (Returns uri)))) = Idle"
    and "liveTimers (fst (step s (PressStop (Returns uri)))) = []"
    and "liveMeters (fst (step s (PressStop (Returns uri)))) = []"
    and "\<not> enabled (fst (step s (PressStop (Returns uri)))) (PressSave cenv)"
    and "snd (handleSave (fst (step s (PressStop (Returns uri)))) cenv) = []"
proof -
  let ?s1 = "fst (step s (PressStop (Returns uri)))"
  have st: "step s (PressStop (Returns uri)) =
      (rerender s (fst (stopRecording s (Returns uri))), snd (stopRecording s (Returns uri)))"
    using assms(2) by (simp add: step_def split: prod.splits)
  have u: "recordedUri s = None" using uri_None [OF assms(1)] assms(2) by simp
  show "snd (step s (PressStop (Returns uri))) =
           [RecorderStop, ConsoleWarn ''No URI returned from recorder'']"
    using assms(3) by (simp add: st stopRecording_def)
  show f: "\<not> isRecording ?s1" "\<not> isPaused ?s1" "recordedUri ?s1 = None"
    "duration ?s1 = duration s"
    using assms(3) u by (simp_all add: st stopRecording_def)
  then show "sessionState ?s1 = Idle" by (simp add: sessionState_def)
  have "invar ?s1" by (rule invar_step [OF assms(1)])
  from inactive_timers [OF this] f show "liveTimers ?s1 = []" "liveMeters ?s1 = []" by simp_all
  show "\<not> enabled ?s1 (PressSave cenv)" using f by simp
  show "snd (handleSave ?s1 cenv) = []" using f by (simp add: handleSave_def)
qed

subsection \<open>The warning and its time-out\<close>



















section \<open>The claims\<close>

text \<open>
  Claim C1, as amended. The duration stays below \<open>MAX_DURATION\<close> in every reachable state
  (so "duration at least 300 implies Stopped" holds of all of them). The tick of the
  duration timer that would raise the duration to \<open>MAX_DURATION\<close> calls the recorder's
  stop; when that returns a URI, the session is Stopped, both interval timers are cleared,
  and a further tick has no effect. A recording started and left running gets there with
  its 300th tick: no stop is issued during the first 299.
\<close>

theorem auto_stop_at_cap:
  "duration (run init_state es) < MAX_DURATION
   \<and> (enabled (run init_state es) (TimerTick env) \<and> tkRecording env
        \<and> MAX_DURATION \<le> duration (run init_state es) + 1 \<longrightarrow>
       RecorderStop \<in> set (snd (step (run init_state es) (TimerTick env)))
       \<and> (tkStop env = Returns uri \<and> truthy uri \<longrightarrow>
            sessionState (fst (step (run init_state es) (TimerTick env))) = Stopped
            \<and> liveTimers (fst (step (run init_state es) (TimerTick env))) = []
            \<and> liveMeters (fst (step (run init_state es) (TimerTick env))) = []
            \<and> step (fst (step (run init_state es) (TimerTick env))) (TimerTick env')
                = (fst (step (run init_state es) (TimerTick env)), [])))
   \<and> sessionState (run init_state (ticked 300)) = Stopped
   \<and> RecorderStop \<in> set (calls init_state (ticked 300))
   \<and> RecorderStop \<notin> set (calls init_state (ticked 299))"
proof -
  have i: "invar (run init_state es)" by (rule invar_run [OF invar_init])
  then have a: "duration (run init_state es) < MAX_DURATION"
    by (simp add: invar_def flags_ok_def)
  have b: "RecorderStop \<in> set (snd (step s (TimerTick env)))"
    if "enabled s (TimerTick env)" "tkRecording env" "MAX_DURATION \<le> duration s + 1" for s
    using that step_tick_stop(2) [of s env] by simp
  have c: "sessionState (fst (step s (TimerTick env))) = Stopped
            \<and> liveTimers (fst (step s (TimerTick env))) = []
            \<and> liveMeters (fst (step s (TimerTick env))) = []
            \<and> step (fst (step s (TimerTick env))) (TimerTick env')
                = (fst (step s (TimerTick env)), [])"
    if "invar s" "enabled s (TimerTick env)" "tkRecording env" "MAX_DURATION \<le> duration s + 1"
      "tkStop env = Returns uri" "truthy uri" for s
    using that by (simp add: step_tick_stopped)
  have d: "sessionState (run init_state (ticked 300)) = Stopped"
    using ticked_299 by (simp add: step_tick_stopped(1) MAX_DURATION_def)
  have e: "RecorderStop \<in> set (calls init_state (ticked 300))"
    using step_tick_stop(2) [of "run init_state (ticked 299)" okTick] ticked_299
    by (simp add: MAX_DURATION_def)
  from a b c [OF i] d e no_stop_before_cap show ?thesis by blast
qed

theorem auto_stop_at_cap_witness:
  "enabled (run init_state (ticked 299)) (TimerTick okTick) \<and> tkRecording okTick
   \<and> MAX_DURATION \<le> duration (run init_state (ticked 299)) + 1
   \<and> tkStop okTick = Returns (Some ''file:///voice.m4a'') \<and> truthy (Some ''file:///voice.m4a'')
   \<and> RecorderStop \<in> set (snd (step (run init_state (ticked 299)) (TimerTick okTick)))
   \<and> sessionState (fst (step (run init_state (ticked 299)) (TimerTick okTick))) = Stopped
   \<and> liveTimers (fst (step (run init_state (ticked 299)) (TimerTick okTick))) = []
   \<and> step (fst (step (run init_state (ticked 299)) (TimerTick okTick))) (TimerTick okTick)
        = (fst (step (run init_state (ticked 299)) (TimerTick okTick)), [])"
  using auto_stop_at_cap [of "ticked 299" okTick "Some ''file:///voice.m4a''" okTick] ticked_299(2,3)
  by (simp add: MAX_DURATION_def)

text \<open>
  Claim C1 as stated fails: a recording started and ticked 300 times without a manual stop
  is Stopped with a duration of 299, which is also the duration it had when the stop was
  called; the duration is never 300. And when the recorder's stop throws on that tick, the
  session is still Recording after it.
\<close>

theorem auto_stop_counterexample:
  "sessionState (run init_state (ticked 300)) = Stopped
   \<and> duration (run init_state (ticked 300)) = 299
   \<and> duration (run init_state (ticked 299)) = 299
   \<and> sessionState (fst (step (run init_state (ticked 299))
        (TimerTick \<lparr> tkRecording = True, tkStop = Throws ''stop failed'' \<rparr>))) = Recording"
proof -
  have "sessionState (run init_state (ticked 300)) = Stopped"
    using ticked_299 by (simp add: step_tick_stopped(1) MAX_DURATION_def)
  moreover have "duration (run init_state (ticked 300)) = 299"
    using step_tick_stop(1) [of "run init_state (ticked 299)" okTick] ticked_299
    by (simp add: MAX_DURATION_def)
  moreover have "sessionState (fst (step (run init_state (ticked 299))
        (TimerTick \<lparr> tkRecording = True, tkStop = Throws ''stop failed'' \<rparr>))) = Recording"
    using run_ticked [of 299]
    by (simp add: step_def timerTick_def stopRecording_def rerender_def sessionState_def
        MAX_DURATION_def WARNING_DURATION_def Let_def)
  ultimately show ?thesis using ticked_299(3) by simp
qed

text \<open>
  Claim C2, as amended. When \<^verbatim>\<open>startRecording\<close> has issued the record call, the call
  returned, and the status read after it reports not recording, the user is shown the
  alert "Recording Error" and the session is Idle with duration 0 and no interval timer
  alive. When a tick of the duration timer finds the device not recording, the session is
  forced to Idle and both interval timers are cleared, but the handler only writes a
  console warning and leaves the duration as it was.
\<close>

theorem device_mismatch_handling:
  "(enabled (run init_state es) (PressStart env)
      \<and> RecorderRecord \<in> set (snd (step (run init_state es) (PressStart env)))
      \<and> stRecord env = Returns () \<and> stStatusAfter env = Returns False \<longrightarrow>
    ShowAlert ''Recording Error'' ''Recording failed to start.''
        \<in> set (snd (step (run init_state es) (PressStart env)))
    \<and> sessionState (fst (step (run init_state es) (PressStart env))) = Idle
    \<and> duration (fst (step (run init_state es) (PressStart env))) = 0
    \<and> liveTimers (fst (step (run init_state es) (PressStart env))) = []
    \<and> liveMeters (fst (step (run init_state es) (PressStart env))) = [])
   \<and> (enabled (run init_state es') (TimerTick tenv) \<and> \<not> tkRecording tenv \<longrightarrow>
    snd (step (run init_state es') (TimerTick tenv)) =
        [RecorderGetStatus,
         ConsoleWarn ''Timer running but recorder not recording! Stopping timer.'']
    \<and> sessionState (fst (step (run init_state es') (TimerTick tenv))) = Idle
    \<and> duration (fst (step (run init_state es') (TimerTick tenv))) = duration (run init_state es')
    \<and> liveTimers (fst (step (run init_state es') (TimerTick tenv))) = []
    \<and> liveMeters (fst (step (run init_state es') (TimerTick tenv))) = [])"
  using step_start_mismatch [OF invar_run [OF invar_init], of es env]
    step_tick_lost [OF invar_run [OF invar_init], of es' tenv]
  by blast

theorem device_mismatch_handling_witness:
  "enabled (run init_state []) (PressStart deadStart)
   \<and> RecorderRecord \<in> set (snd (step (run init_state []) (PressStart deadStart)))
   \<and> stRecord deadStart = Returns () \<and> stStatusAfter deadStart = Returns False
   \<and> ShowAlert ''Recording Error'' ''Recording failed to start.''
        \<in> set (snd (step (run init_state []) (PressStart deadStart)))
   \<and> sessionState (fst (step (run init_state []) (PressStart deadStart))) = Idle
   \<and> enabled (run init_state (ticked 2)) (TimerTick lostTick) \<and> \<not> tkRecording lostTick
   \<and> sessionState (fst (step (run init_state (ticked 2)) (TimerTick lostTick))) = Idle
   \<and> duration (fst (step (run init_state (ticked 2)) (TimerTick lostTick))) = 2
   \<and> liveTimers (fst (step (run init_state (ticked 2)) (TimerTick lostTick))) = []"
proof -
  have a: "enabled (run init_state []) (PressStart deadStart)
     \<and> RecorderRecord \<in> set (snd (step (run init_state []) (PressStart deadStart)))
     \<and> stRecord deadStart = Returns () \<and> stStatusAfter deadStart = Returns False"
    by (simp add: exec_defs)
  have b: "enabled (run init_state (ticked 2)) (TimerTick lostTick) \<and> \<not> tkRecording lostTick
     \<and> duration (run init_state (ticked 2)) = 2"
    unfolding ticked_2 by (simp add: init_state_def)
  from device_mismatch_handling [of "[]" deadStart "ticked 2" lostTick] a b
  show ?thesis by simp
qed

text \<open>
  Claim C2 as stated fails on the tick path: after two seconds of recording, a tick that
  finds the device not recording issues no alert (its only output is a console warning),
  and the duration stays 2.
\<close>

theorem tick_mismatch_counterexample:
  "snd (step (run init_state (ticked 2)) (TimerTick lostTick)) =
     [RecorderGetStatus, ConsoleWarn ''Timer running but recorder not recording! Stopping timer.'']
   \<and> duration (fst (step (run init_state (ticked 2)) (TimerTick lostTick))) = 2"
  unfolding ticked_2 by (simp add: exec_defs)

text \<open>
  Claim C3, as amended. From any reachable state, an event leaves the duration as it is, or
  it is a tick of the duration timer in the state Recording and adds exactly one, or it is
  one of the events that reset the duration to 0 (start, save, record again, close). So the
  duration is frozen by pause, resume, stop, playback, metering and the passing of time,
  and between two resets it never decreases.
\<close>

theorem duration_changes:
  "duration (fst (step (run init_state es) e)) = duration (run init_state es)
   \<or> (sessionState (run init_state es) = Recording \<and> is_tick e
        \<and> duration (fst (step (run init_state es) e)) = duration (run init_state es) + 1)
   \<or> (resets e \<and> duration (fst (step (run init_state es) e)) = 0)"
  by (rule duration_step [OF invar_run [OF invar_init]])

text \<open>
  Claim C3 as stated fails: a recording of two seconds is stopped (state Stopped, duration
  2), and "Record Again" then sets the duration back to 0.
\<close>

theorem duration_reset_counterexample:
  "sessionState (run init_state (ticked 2 @ [PressStop (Returns (Some ''file:///voice.m4a''))])) = Stopped
   \<and> duration (run init_state (ticked 2 @ [PressStop (Returns (Some ''file:///voice.m4a''))])) = 2
   \<and> duration (run init_state
        (ticked 2 @ [PressStop (Returns (Some ''file:///voice.m4a'')), PressRecordAgain (Returns ())])) = 0"
  unfolding run_append ticked_2 by (simp add: exec_defs)



text \<open>
  Claim C5. A metering sample with a defined decibel reading \<open>db\<close> sets the audio level to
  \<open>(db + 160) / 160\<close> clamped to \<open>[0, 1]\<close>; an undefined or null reading sets it to 0.
  Readings of -160 dB and -40 dB give exactly 0 and 0.75.
\<close>

theorem metering_normalised:
  "audioLevel (fst (meteringTick s (Returns r))) = spec_level r
   \<and> 0 \<le> audioLevel (fst (meteringTick s (Returns r)))
   \<and> audioLevel (fst (meteringTick s (Returns r))) \<le> 1
   \<and> audioLevel (fst (meteringTick s (Returns (Db (- 160))))) = 0
   \<and> audioLevel (fst (meteringTick s (Returns (Db (- 40))))) = 3 / 4
   \<and> audioLevel (fst (meteringTick s (Returns Undefined))) = 0
   \<and> audioLevel (fst (meteringTick s (Returns Null))) = 0"
  by (cases r) (auto simp: meteringTick_def normalize_def spec_level_def spec_clamp_def)


text \<open>
  Claim C7. In every execution of \<^verbatim>\<open>startRecording\<close>, whatever the state and whatever the
  device does: if the record command is issued at all, the audio-mode call (with recording
  allowed) was issued before it and returned, and so was the prepare call; if the status
  read before starting reported an active capture and the prepare call is issued, then the
  calls right before it are that status read, the recorder's stop (which returned) and a
  wait of 200 ms; no wait before the prepare call is longer than 300 ms; and the recorder
  is stopped only when an active capture was reported.
\<close>

theorem start_ordering:
  "(RecorderRecord \<in> set (snd (startRecording s env)) \<longrightarrow>
      stSetMode env = Returns ()
      \<and> SetAudioMode True \<in> set (callsBefore RecorderRecord (snd (startRecording s env)))
      \<and> RecorderPrepare \<in> set (callsBefore RecorderRecord (snd (startRecording s env))))
   \<and> (RecorderPrepare \<in> set (snd (startRecording s env)) \<and> stStatusBefore env = Returns True \<longrightarrow>
      stStopExisting env = Returns ()
      \<and> suffix [RecorderGetStatus, RecorderStop, Sleep 200]
           (callsBefore RecorderPrepare (snd (startRecording s env))))
   \<and> (Sleep ms \<in> set (callsBefore RecorderPrepare (snd (startRecording s env))) \<longrightarrow> ms \<le> 300)
   \<and> (RecorderStop \<in> set (snd (startRecording s env)) \<longrightarrow> stStatusBefore env = Returns True)"
  by (auto simp: startRecording_def startPrepared_def startFailed_def callsBefore_def
      suffix_Cons split: outcome.splits if_splits)

theorem start_ordering_witness:
  "snd (startRecording init_state busyStart) =
     [RequestPermission, SetAudioMode True, RecorderGetStatus, RecorderStop, Sleep 200,
      RecorderPrepare, RecorderRecord, Sleep 200, RecorderGetStatus]
   \<and> RecorderRecord \<in> set (snd (startRecording init_state busyStart))
   \<and> RecorderPrepare \<in> set (snd (startRecording init_state busyStart))
   \<and> stStatusBefore busyStart = Returns True
   \<and> Sleep 200 \<in> set (callsBefore RecorderPrepare (snd (startRecording init_state busyStart)))
   \<and> RecorderStop \<in> set (snd (startRecording init_state busyStart))
   \<and> stSetMode busyStart = Returns ()
   \<and> SetAudioMode True \<in> set (callsBefore RecorderRecord (snd (startRecording init_state busyStart)))
   \<and> suffix [RecorderGetStatus, RecorderStop, Sleep 200]
        (callsBefore RecorderPrepare (snd (startRecording init_state busyStart)))
   \<and> (200 :: nat) \<le> 300"
proof -
  have c: "snd (startRecording init_state busyStart) =
     [RequestPermission, SetAudioMode True, RecorderGetStatus, RecorderStop, Sleep 200,
      RecorderPrepare, RecorderRecord, Sleep 200, RecorderGetStatus]"
    by (simp add: startRecording_def startPrepared_def busyStart_def okStart_def)
  have h: "RecorderRecord \<in> set (snd (startRecording init_state busyStart))"
    "RecorderPrepare \<in> set (snd (startRecording init_state busyStart))"
    "stStatusBefore busyStart = Returns True"
    "Sleep 200 \<in> set (callsBefore RecorderPrepare (snd (startRecording init_state busyStart)))"
    "RecorderStop \<in> set (snd (startRecording init_state busyStart))"
    unfolding c by (simp_all add: busyStart_def callsBefore_def)
  from start_ordering [of init_state busyStart 200] h c show ?thesis by simp
qed

text \<open>
  Claim C8. On the playback screen, the play button pressed while \<^verbatim>\<open>isPlaying\<close> is false
  issues the seek to position 0 as its first call, whatever happens next; if the play
  command is issued, the seek to 0 and the audio-mode call with recording disallowed were
  issued before it and both returned. Pressed while \<^verbatim>\<open>isPlaying\<close> is true, it issues the
  pause as its first call, and neither a seek nor a play.
\<close>

theorem toggle_play_ordering:
  "(truthy (recordedUri s) \<and> \<not> isPlaying s \<longrightarrow>
      take 1 (snd (togglePlay s env)) = [PlayerSeekTo 0]
      \<and> (PlayerPlay \<in> set (snd (togglePlay s env)) \<longrightarrow>
           plSeek env = Returns () \<and> plSetMode env = Returns ()
           \<and> PlayerSeekTo 0 \<in> set (callsBefore PlayerPlay (snd (togglePlay s env)))
           \<and> SetAudioMode False \<in> set (callsBefore PlayerPlay (snd (togglePlay s env)))))
   \<and> (isPlaying s \<longrightarrow>
      take 1 (snd (togglePlay s env)) = [PlayerPause]
      \<and> PlayerPlay \<notin> set (snd (togglePlay s env))
      \<and> PlayerSeekTo 0 \<notin> set (snd (togglePlay s env)))"
  by (auto simp: togglePlay_def playRecording_def playFromStart_def playFailed_def
      pausePlayback_def callsBefore_def split: outcome.splits if_splits)

theorem toggle_play_ordering_witness:
  "truthy (recordedUri (run init_state (ticked 2 @ [PressStop (Returns (Some ''file:///voice.m4a''))])))
   \<and> \<not> isPlaying (run init_state (ticked 2 @ [PressStop (Returns (Some ''file:///voice.m4a''))]))
   \<and> snd (togglePlay (run init_state (ticked 2 @ [PressStop (Returns (Some ''file:///voice.m4a''))])) okPlay)
       = [PlayerSeekTo 0, SetAudioMode False, PlayerPlay]
   \<and> plSeek okPlay = Returns () \<and> plSetMode okPlay = Returns ()
   \<and> isPlaying (run init_state
        (ticked 2 @ [PressStop (Returns (Some ''file:///voice.m4a'')), PressPlay okPlay]))
   \<and> take 1 (snd (togglePlay (run init_state
        (ticked 2 @ [PressStop (Returns (Some ''file:///voice.m4a'')), PressPlay okPlay])) okPlay))
       = [PlayerPause]"
proof -
  let ?s = "run init_state (ticked 2 @ [PressStop (Returns (Some ''file:///voice.m4a''))])"
  let ?p = "run init_state
        (ticked 2 @ [PressStop (Returns (Some ''file:///voice.m4a'')), PressPlay okPlay])"
  have p: "?p = fst (step ?s (PressPlay okPlay))"
    using run_append [of init_state "ticked 2 @ [PressStop (Returns (Some ''file:///voice.m4a''))]"
        "[PressPlay okPlay]"] by simp
  have a: "truthy (recordedUri ?s) \<and> \<not> isPlaying ?s
      \<and> snd (togglePlay ?s okPlay) = [PlayerSeekTo 0, SetAudioMode False, PlayerPlay]"
    unfolding stopped_2 by (simp add: exec_defs)
  have b: "isPlaying ?p" unfolding p stopped_2 by (simp add: exec_defs)
  from toggle_play_ordering [of ?s okPlay] toggle_play_ordering [of ?p okPlay] a b
  show ?thesis by (simp add: okPlay_def)
qed

text \<open>
  Claim C9, as amended. When the stop button's \<^verbatim>\<open>stopRecording\<close> completes and the recorder
  has no URI, the handler writes a console warning, recording ends (\<^verbatim>\<open>isRecording\<close> and
  \<^verbatim>\<open>isPaused\<close> false, both interval timers cleared), the recorded URI stays null and the
  duration is kept. The component then shows the recording screen with the start button,
  which is the Idle state, not the playback screen of the Stopped state. The save button is
  not rendered there, \<^verbatim>\<open>handleSave\<close> would issue nothing, and along any run every
  \<^verbatim>\<open>onSave\<close> carries the non-empty recorded URI of the state it was pressed in, with a
  positive duration.
\<close>

theorem missing_uri_soft_failure:
  "(enabled (run init_state es) (PressStop (Returns uri)) \<and> \<not> truthy uri \<longrightarrow>
      snd (step (run init_state es) (PressStop (Returns uri))) =
        [RecorderStop, ConsoleWarn ''No URI returned from recorder'']
      \<and> isRecording (fst (step (run init_state es) (PressStop (Returns uri)))) = False
      \<and> isPaused (fst (step (run init_state es) (PressStop (Returns uri)))) = False
      \<and> recordedUri (fst (step (run init_state es) (PressStop (Returns uri)))) = None
      \<and> duration (fst (step (run init_state es) (PressStop (Returns uri))))
          = duration (run init_state es)
      \<and> sessionState (fst (step (run init_state es) (PressStop (Returns uri)))) = Idle
      \<and> liveTimers (fst (step (run init_state es) (PressStop (Returns uri)))) = []
      \<and> liveMeters (fst (step (run init_state es) (PressStop (Returns uri)))) = []
      \<and> enabled (fst (step (run init_state es) (PressStop (Returns uri)))) (PressSave cenv) = False
      \<and> snd (handleSave (fst (step (run init_state es) (PressStop (Returns uri)))) cenv) = [])
   \<and> (OnSave u d \<in> set (snd (step (run init_state es') e)) \<longrightarrow>
        recordedUri (run init_state es') = Some u \<and> u \<noteq> [] \<and> d = duration (run init_state es')
        \<and> 0 < d)"
  using onSave_step [of u d "run init_state es'" e]
  by (simp add: step_stop_no_uri [OF invar_run [OF invar_init]])

theorem missing_uri_soft_failure_witness:
  "enabled (run init_state (ticked 2)) (PressStop (Returns None)) \<and> \<not> truthy None
   \<and> snd (step (run init_state (ticked 2)) (PressStop (Returns None))) =
        [RecorderStop, ConsoleWarn ''No URI returned from recorder'']
   \<and> recordedUri (fst (step (run init_state (ticked 2)) (PressStop (Returns None)))) = None
   \<and> duration (fst (step (run init_state (ticked 2)) (PressStop (Returns None)))) = 2
   \<and> snd (handleSave (fst (step (run init_state (ticked 2)) (PressStop (Returns None)))) okClose) = []
   \<and> OnSave ''file:///voice.m4a'' 2
        \<in> set (snd (step (run init_state (ticked 2 @ [PressStop (Returns (Some ''file:///voice.m4a''))]))
                   (PressSave okClose)))
   \<and> recordedUri (run init_state (ticked 2 @ [PressStop (Returns (Some ''file:///voice.m4a''))]))
        = Some ''file:///voice.m4a''"
proof -
  have a: "enabled (run init_state (ticked 2)) (PressStop (Returns None)) \<and> \<not> truthy None
      \<and> duration (run init_state (ticked 2)) = 2"
    unfolding ticked_2 by (simp add: init_state_def)
  have b: "OnSave ''file:///voice.m4a'' 2
        \<in> set (snd (step (run init_state (ticked 2 @ [PressStop (Returns (Some ''file:///voice.m4a''))]))
                   (PressSave okClose)))"
    unfolding stopped_2 by (simp add: exec_defs)
  from missing_uri_soft_failure [of "ticked 2" None okClose "''file:///voice.m4a''" 2
      "ticked 2 @ [PressStop (Returns (Some ''file:///voice.m4a''))]" "PressSave okClose"] a b
  show ?thesis by simp
qed

text \<open>
  Claim C9 as stated fails: after two seconds of recording, a stop for which the recorder
  has no URI leaves the session Idle, not Stopped.
\<close>

theorem missing_uri_counterexample:
  "sessionState (fst (step (run init_state (ticked 2)) (PressStop (Returns None)))) = Idle"
  unfolding ticked_2 by (simp add: exec_defs)

text \<open>
  Claim C10. In every reachable state the duration is at most 299: the tick that would
  raise it to 300 calls \<^verbatim>\<open>stopRecording\<close> and returns the previous value, so no save
  ever reports more than 299 seconds, and a recording left running until the automatic
  stop is saved with 299.
\<close>

theorem duration_cap_off_by_one:
  "duration (run init_state es) \<le> MAX_DURATION - 1
   \<and> (enabled (run init_state es) (TimerTick env) \<and> tkRecording env
        \<and> duration (run init_state es) = MAX_DURATION - 1 \<longrightarrow>
      duration (fst (step (run init_state es) (TimerTick env))) = MAX_DURATION - 1
      \<and> RecorderStop \<in> set (snd (step (run init_state es) (TimerTick env))))
   \<and> (OnSave uri d \<in> set (calls init_state es') \<longrightarrow> d \<le> MAX_DURATION - 1)
   \<and> OnSave ''file:///voice.m4a'' 299
        \<in> set (calls init_state (ticked 300 @ [PressSave okClose]))"
proof -
  have "invar (run init_state es)" by (rule invar_run [OF invar_init])
  then have a: "duration (run init_state es) \<le> MAX_DURATION - 1"
    by (simp add: invar_def flags_ok_def)
  have b: "duration (fst (step s (TimerTick env))) = MAX_DURATION - 1
      \<and> RecorderStop \<in> set (snd (step s (TimerTick env)))"
    if "enabled s (TimerTick env)" "tkRecording env" "duration s = MAX_DURATION - 1" for s
    using that step_tick_stop(1,2) [of s env] by simp
  have c: "d \<le> MAX_DURATION - 1" if "OnSave uri d \<in> set (calls init_state es')"
    using onSave_calls [OF that invar_init] by simp
  from a b c full_session_saved show ?thesis by blast
qed

theorem duration_cap_off_by_one_witness:
  "enabled (run init_state (ticked 299)) (TimerTick okTick) \<and> tkRecording okTick
   \<and> duration (run init_state (ticked 299)) = MAX_DURATION - 1
   \<and> duration (fst (step (run init_state (ticked 299)) (TimerTick okTick))) = MAX_DURATION - 1
   \<and> RecorderStop \<in> set (snd (step (run init_state (ticked 299)) (TimerTick okTick)))
   \<and> OnSave ''file:///voice.m4a'' 299 \<in> set (calls init_state (ticked 300 @ [PressSave okClose]))
   \<and> (299 :: int) \<le> MAX_DURATION - 1"
proof -
  let ?s = "run init_state (ticked 299)"
  have h: "enabled ?s (TimerTick okTick) \<and> tkRecording okTick \<and> duration ?s = MAX_DURATION - 1"
    using ticked_299(2,3) by (simp add: MAX_DURATION_def)
  from duration_cap_off_by_one [of "ticked 299" okTick "''file:///voice.m4a''" 299
      "ticked 300 @ [PressSave okClose]"] h
  show ?thesis by simp
qed

end
